theory Spec2Isabelle
  imports Main
begin

section \<open>Data model of applicationsettings.cpp\<close>

text \<open>
  The list entries of the two kinds of list model. \<open>ImagesData\<close> and \<open>MenusData\<close> are the
  structs of the same names; where a field name occurs in both, it is written qualified
  (\<open>ImagesData.file\<close>, \<open>MenusData.file\<close>). A default-constructed \<open>QString\<close> is the empty
  string.
\<close>

record ImagesData =
  name :: string
  "file" :: string
  width :: int
  height :: int
  canRemove :: bool

record MenusData =
  name :: string
  "file" :: string

record ImagesModel =
  m_modelList :: "ImagesData list"
  m_currentIndex :: int

record MenusModel =
  m_modelList :: "MenusData list"

text \<open>
  The persistent store (\<open>m_settings\<close>, a \<open>QSettings\<close>), restricted to the keys this file
  reads and writes, each holding a value of the type the program stores under it; \<open>None\<close> is
  an absent key. The array \<open>recentProjects\<close> is the key \<open>recentProjects/size\<close> together with
  the keys \<open>recentProjects/<i+1>/projectName\<close> and \<open>recentProjects/<i+1>/projectFile\<close>, which
  are addressed here by the array index \<open>i\<close> that \<open>setArrayIndex\<close> receives.
\<close>

record QSettings =
  KEY_CUSTOM_SOURCE_IMAGES :: "string list option"
  KEY_RECENT_PROJECTS_size :: "int option"
  KEY_PROJECT_NAME :: "nat \<rightharpoonup> string"
  KEY_PROJECT_FILE :: "nat \<rightharpoonup> string"
  KEY_LEGACY_SHADERS :: "bool option"
  KEY_CODE_FONT_FILE :: "string option"
  KEY_CODE_FONT_SIZE :: "int option"

text \<open>
  What an operation makes observable besides the lists and the store: warnings written with
  \<open>qWarning\<close>, the signals emitted, and the calls into the effect manager, in the order in
  which they happen.
\<close>

datatype model = SourceImagesModel | BackgroundImagesModel | RecentProjectsModel

datatype event =
    Warning_ImageAlreadyExists
  | Warning_CantReadImage string
  | BeginResetModel model
  | EndResetModel model
  | CurrentImageFileChanged
  | UseLegacyShadersChanged
  | CodeFontFileChanged
  | CodeFontSizeChanged
  | UpdateBakedShaderVersions
  | DoBakeShaders

record ApplicationSettings =
  m_settings :: QSettings
  m_sourceImagesModel :: ImagesModel
  m_backgroundImagesModel :: ImagesModel
  m_recentProjectsModel :: MenusModel
  events :: "event list"

text \<open>
  The collaborators that \<open>addSourceImage\<close> consults: \<open>QUrl(s).toLocalFile()\<close> and, for a
  \<open>QImageReader\<close> on a file name, \<open>canRead()\<close> and \<open>size()\<close>.
\<close>

record collaborators =
  toLocalFile :: "string \<Rightarrow> string"
  canRead :: "string \<Rightarrow> bool"
  imageSize :: "string \<Rightarrow> int \<times> int"

definition defaultSources :: "string list" where
  "defaultSources =
     [''defaultnodes/images/qt_logo_green_rgb.png'',
      ''defaultnodes/images/quit_logo.png'',
      ''defaultnodes/images/whitecircle.png'',
      ''defaultnodes/images/blackcircle.png'']"

definition DEFAULT_CODE_FONT_FILE :: string where
  "DEFAULT_CODE_FONT_FILE = ''fonts/SourceCodePro-Regular.ttf''"

definition DEFAULT_CODE_FONT_SIZE :: int where
  "DEFAULT_CODE_FONT_SIZE = 14"

section \<open>QList operations with an index\<close>

text \<open>
  \<open>QList::at\<close>, \<open>QList::removeAt\<close> and \<open>QList::move\<close> require their indices to be valid
  positions of the list; a call outside this range is an error (\<open>Q_ASSERT\<close> fails), which
  the model returns as a value.
\<close>

datatype error = IndexOutOfRange

definition qlist_at :: "'a list \<Rightarrow> int \<Rightarrow> error + 'a" where
  "qlist_at xs i =
     (if 0 \<le> i \<and> i < int (length xs) then Inr (xs ! nat i) else Inl IndexOutOfRange)"

definition qlist_removeAt :: "'a list \<Rightarrow> int \<Rightarrow> error + 'a list" where
  "qlist_removeAt xs i =
     (if 0 \<le> i \<and> i < int (length xs)
      then Inr (take (nat i) xs @ drop (Suc (nat i)) xs)
      else Inl IndexOutOfRange)"

text \<open>
  \<open>move(src, dst)\<close> rotates the segment between the two positions, so that the element at
  \<open>src\<close> arrives at \<open>dst\<close> and the elements in between shift by one.
\<close>

definition qlist_move :: "'a list \<Rightarrow> int \<Rightarrow> int \<Rightarrow> error + 'a list" where
  "qlist_move xs src dst =
     (if 0 \<le> src \<and> src < int (length xs) \<and> 0 \<le> dst \<and> dst < int (length xs)
      then
        (if src = dst then Inr xs
         else if src < dst
         then Inr (take (nat src) xs @ take (nat dst - nat src) (drop (Suc (nat src)) xs)
                   @ [xs ! nat src] @ drop (Suc (nat dst)) xs)
         else Inr (take (nat dst) xs @ [xs ! nat src]
                   @ take (nat src - nat dst) (drop (nat dst) xs) @ drop (Suc (nat src)) xs))
      else Inl IndexOutOfRange)"

section \<open>ImagesModel\<close>

definition setImageIndex :: "int \<Rightarrow> ImagesModel \<Rightarrow> ImagesModel \<times> event list" where
  "setImageIndex index m =
     (if m_currentIndex m = index then (m, [])
      else (m\<lparr>m_currentIndex := index\<rparr>, [CurrentImageFileChanged]))"

definition currentImageFile :: "ImagesModel \<Rightarrow> error + string" where
  "currentImageFile m =
     (if int (length (ImagesModel.m_modelList m)) > m_currentIndex m
      then (case qlist_at (ImagesModel.m_modelList m) (m_currentIndex m) of
              Inl e \<Rightarrow> Inl e
            | Inr d \<Rightarrow> Inr (ImagesData.file d))
      else Inr [])"

section \<open>Source images\<close>

text \<open>The duplicate check of \<open>addSourceImage\<close>: the loop that returns at the first match.\<close>

fun containsFile :: "ImagesData list \<Rightarrow> string \<Rightarrow> bool" where
  "containsFile [] sourceImage = False"
| "containsFile (source # rest) sourceImage =
     (if ImagesData.file source = sourceImage then True else containsFile rest sourceImage)"

definition customSourceImages :: "QSettings \<Rightarrow> string list" where
  "customSourceImages s = (case KEY_CUSTOM_SOURCE_IMAGES s of None \<Rightarrow> [] | Some l \<Rightarrow> l)"

definition addSourceImage ::
  "collaborators \<Rightarrow> string \<Rightarrow> bool \<Rightarrow> ApplicationSettings \<Rightarrow> bool \<times> ApplicationSettings" where
  "addSourceImage env sourceImage canRemove' st =
     (if sourceImage = [] then (False, st)
      else if containsFile (ImagesModel.m_modelList (m_sourceImagesModel st)) sourceImage
      then (False, st\<lparr>events := events st @ [Warning_ImageAlreadyExists]\<rparr>)
      else
        let sourceImageFile = toLocalFile env sourceImage;
            readable = canRead env sourceImageFile;
            size' = (if readable then imageSize env sourceImageFile else (0, 0));
            warn = (if readable then [] else [Warning_CantReadImage sourceImage]);
            d = \<lparr>ImagesData.name = [], ImagesData.file = sourceImage,
                 width = fst size', height = snd size', canRemove = canRemove'\<rparr>;
            model = m_sourceImagesModel st;
            st1 = st\<lparr>m_sourceImagesModel :=
                        model\<lparr>ImagesModel.m_modelList := ImagesModel.m_modelList model @ [d]\<rparr>,
                      events := events st @ warn
                        @ [BeginResetModel SourceImagesModel, EndResetModel SourceImagesModel]\<rparr>
        in if canRemove'
           then
             (let customSources = customSourceImages (m_settings st1)
              in if ImagesData.file d \<notin> set customSources
                 then (True, st1\<lparr>m_settings := (m_settings st1)
                         \<lparr>KEY_CUSTOM_SOURCE_IMAGES := Some (customSources @ [ImagesData.file d])\<rparr>\<rparr>)
                 else (True, st1))
           else (True, st1))"

definition removeSourceImage ::
  "int \<Rightarrow> ApplicationSettings \<Rightarrow> error + (bool \<times> ApplicationSettings)" where
  "removeSourceImage index st =
     (let model = m_sourceImagesModel st in
      if index < 0 \<or> index \<ge> int (length (ImagesModel.m_modelList model))
      then Inr (False, st)
      else
        (case qlist_removeAt (ImagesModel.m_modelList model) index of
           Inl e \<Rightarrow> Inl e
         | Inr l \<Rightarrow>
             (let st1 = st\<lparr>m_sourceImagesModel := model\<lparr>ImagesModel.m_modelList := l\<rparr>,
                           events := events st
                             @ [BeginResetModel SourceImagesModel, EndResetModel SourceImagesModel]\<rparr>;
                  customSources = customSourceImages (m_settings st1)
              in case qlist_removeAt customSources (index - int (length defaultSources)) of
                   Inl e \<Rightarrow> Inl e
                 | Inr customSources' \<Rightarrow>
                     Inr (True, st1\<lparr>m_settings := (m_settings st1)
                            \<lparr>KEY_CUSTOM_SOURCE_IMAGES := Some customSources'\<rparr>\<rparr>))))"

section \<open>Recent projects\<close>

text \<open>
  Reading the array. \<open>beginReadArray\<close> returns the value of \<open>recentProjects/size\<close> as an
  integer (0 when the key is absent); \<open>value(key).toString()\<close> at array index \<open>i\<close> is the
  stored string, or the empty string when the key is absent.
\<close>

definition beginReadArray :: "QSettings \<Rightarrow> int" where
  "beginReadArray s = (case KEY_RECENT_PROJECTS_size s of None \<Rightarrow> 0 | Some n \<Rightarrow> n)"

definition value_PROJECT_NAME :: "QSettings \<Rightarrow> nat \<Rightarrow> string" where
  "value_PROJECT_NAME s i = (case KEY_PROJECT_NAME s i of None \<Rightarrow> [] | Some v \<Rightarrow> v)"

definition value_PROJECT_FILE :: "QSettings \<Rightarrow> nat \<Rightarrow> string" where
  "value_PROJECT_FILE s i = (case KEY_PROJECT_FILE s i of None \<Rightarrow> [] | Some v \<Rightarrow> v)"

definition max_items :: int where
  "max_items = 6"

text \<open>
  The loop under \<open>// Read from settings\<close> of \<open>updateRecentProjectsModel\<close>, from index \<open>i\<close>
  on, with the list and the index of the project found so far.
\<close>

function readRecentProjects ::
  "QSettings \<Rightarrow> string \<Rightarrow> int \<Rightarrow> int \<Rightarrow> MenusData list \<Rightarrow> int \<Rightarrow> MenusData list \<times> int" where
  "readRecentProjects s projectFile size' i recentProjectsList projectListIndex =
     (if i < size'
      then
        (if i \<ge> max_items then (recentProjectsList, projectListIndex)
         else if value_PROJECT_NAME s (nat i) \<noteq> [] \<and> value_PROJECT_FILE s (nat i) \<noteq> []
         then readRecentProjects s projectFile size' (i + 1)
                (recentProjectsList
                 @ [\<lparr>MenusData.name = value_PROJECT_NAME s (nat i),
                      MenusData.file = value_PROJECT_FILE s (nat i)\<rparr>])
                (if value_PROJECT_FILE s (nat i) = projectFile
                 then int (length recentProjectsList + 1) - 1
                 else projectListIndex)
         else readRecentProjects s projectFile size' (i + 1) recentProjectsList projectListIndex)
      else (recentProjectsList, projectListIndex))"
  by pat_completeness auto
termination
  by (relation "measure (\<lambda>(s, projectFile, size', i, l, idx). nat (size' - i))") auto

text \<open>
  Writing the array. \<open>beginWriteArray\<close> without a size removes \<open>recentProjects/size\<close> and
  starts guessing the size at 0; each \<open>setArrayIndex(i)\<close> raises the guess to \<open>i + 1\<close>;
  \<open>endArray\<close> stores the guess as the new size. Entries beyond the new size stay in the
  store.
\<close>

definition beginWriteArray :: "QSettings \<Rightarrow> QSettings" where
  "beginWriteArray s = s\<lparr>KEY_RECENT_PROJECTS_size := None\<rparr>"

definition endArray :: "nat \<Rightarrow> QSettings \<Rightarrow> QSettings" where
  "endArray arraySizeGuess s = s\<lparr>KEY_RECENT_PROJECTS_size := Some (int arraySizeGuess)\<rparr>"

function writeRecentProjects ::
  "MenusData list \<Rightarrow> nat \<Rightarrow> QSettings \<Rightarrow> nat \<Rightarrow> QSettings \<times> nat" where
  "writeRecentProjects recentProjectsList i s arraySizeGuess =
     (if i < length recentProjectsList
      then writeRecentProjects recentProjectsList (Suc i)
             (s\<lparr>KEY_PROJECT_NAME :=
                   (KEY_PROJECT_NAME s)(i \<mapsto> MenusData.name (recentProjectsList ! i)),
                 KEY_PROJECT_FILE :=
                   (KEY_PROJECT_FILE s)(i \<mapsto> MenusData.file (recentProjectsList ! i))\<rparr>)
             (max arraySizeGuess (Suc i))
      else (s, arraySizeGuess))"
  by pat_completeness auto
termination
  by (relation "measure (\<lambda>(l, i, s, g). length l - i)") auto

definition resetRecentProjectsModel ::
  "MenusData list \<Rightarrow> ApplicationSettings \<Rightarrow> ApplicationSettings" where
  "resetRecentProjectsModel l st =
     st\<lparr>m_recentProjectsModel := (m_recentProjectsModel st)\<lparr>MenusModel.m_modelList := l\<rparr>,
        events := events st
          @ [BeginResetModel RecentProjectsModel, EndResetModel RecentProjectsModel]\<rparr>"

definition updateRecentProjectsModel ::
  "string \<Rightarrow> string \<Rightarrow> ApplicationSettings \<Rightarrow> error + ApplicationSettings" where
  "updateRecentProjectsModel projectName projectFile st =
     (let modelList = MenusModel.m_modelList (m_recentProjectsModel st) in
      if projectFile \<noteq> [] \<and> modelList \<noteq> [] \<and> MenusData.file (hd modelList) = projectFile
      then Inr st
      else
        (case readRecentProjects (m_settings st) projectFile
                (beginReadArray (m_settings st)) 0 [] (- 1) of
           (recentProjectsList, projectListIndex) \<Rightarrow>
             if projectName \<noteq> [] \<and> projectFile \<noteq> []
             then
               (case (if projectListIndex = - 1
                      then Inr (\<lparr>MenusData.name = projectName, MenusData.file = projectFile\<rparr>
                                # recentProjectsList)
                      else if projectListIndex > 0
                      then qlist_move recentProjectsList projectListIndex 0
                      else Inr recentProjectsList) of
                  Inl e \<Rightarrow> Inl e
                | Inr moved \<Rightarrow>
                    (let truncated =
                           (if int (length moved) > max_items then butlast moved else moved)
                     in case writeRecentProjects truncated 0
                               (beginWriteArray (m_settings st)) 0 of
                          (s, arraySizeGuess) \<Rightarrow>
                            Inr (resetRecentProjectsModel truncated
                                   (st\<lparr>m_settings := endArray arraySizeGuess s\<rparr>))))
             else Inr (resetRecentProjectsModel recentProjectsList st)))"

text \<open>
  The loop of \<open>removeRecentProjectsModel\<close> from index \<open>i\<close> on: at the first index whose
  stored file equals the argument it removes the two keys of that index and calls
  \<open>removeAt(i)\<close> on the list of the model.
\<close>

function removeRecentProjectsLoop ::
  "string \<Rightarrow> int \<Rightarrow> int \<Rightarrow> ApplicationSettings \<Rightarrow> error + ApplicationSettings" where
  "removeRecentProjectsLoop projectFile size' i st =
     (if i < size'
      then
        (if value_PROJECT_FILE (m_settings st) (nat i) = projectFile
         then
           (case qlist_removeAt (MenusModel.m_modelList (m_recentProjectsModel st)) i of
              Inl e \<Rightarrow> Inl e
            | Inr l \<Rightarrow>
                Inr (resetRecentProjectsModel l
                       (st\<lparr>m_settings := (m_settings st)
                             \<lparr>KEY_PROJECT_NAME := (KEY_PROJECT_NAME (m_settings st))(nat i := None),
                              KEY_PROJECT_FILE := (KEY_PROJECT_FILE (m_settings st))(nat i := None)\<rparr>\<rparr>)))
         else removeRecentProjectsLoop projectFile size' (i + 1) st)
      else Inr st)"
  by pat_completeness auto
termination
  by (relation "measure (\<lambda>(projectFile, size', i, st). nat (size' - i))") auto

definition removeRecentProjectsModel ::
  "string \<Rightarrow> ApplicationSettings \<Rightarrow> error + ApplicationSettings" where
  "removeRecentProjectsModel projectFile st =
     removeRecentProjectsLoop projectFile (beginReadArray (m_settings st)) 0 st"

section \<open>Scalar preferences\<close>

definition useLegacyShaders :: "ApplicationSettings \<Rightarrow> bool" where
  "useLegacyShaders st = (case KEY_LEGACY_SHADERS (m_settings st) of None \<Rightarrow> False | Some b \<Rightarrow> b)"

definition setUseLegacyShaders :: "bool \<Rightarrow> ApplicationSettings \<Rightarrow> ApplicationSettings" where
  "setUseLegacyShaders legacyShaders st =
     (if useLegacyShaders st = legacyShaders then st
      else st\<lparr>m_settings := (m_settings st)\<lparr>KEY_LEGACY_SHADERS := Some legacyShaders\<rparr>,
              events := events st
                @ [UseLegacyShadersChanged, UpdateBakedShaderVersions, DoBakeShaders]\<rparr>)"

definition codeFontFile :: "ApplicationSettings \<Rightarrow> string" where
  "codeFontFile st =
     (case KEY_CODE_FONT_FILE (m_settings st) of None \<Rightarrow> DEFAULT_CODE_FONT_FILE | Some f \<Rightarrow> f)"

definition codeFontSize :: "ApplicationSettings \<Rightarrow> int" where
  "codeFontSize st =
     (case KEY_CODE_FONT_SIZE (m_settings st) of None \<Rightarrow> DEFAULT_CODE_FONT_SIZE | Some n \<Rightarrow> n)"

definition setCodeFontFile :: "string \<Rightarrow> ApplicationSettings \<Rightarrow> ApplicationSettings" where
  "setCodeFontFile font st =
     (if codeFontFile st = font then st
      else st\<lparr>m_settings := (m_settings st)\<lparr>KEY_CODE_FONT_FILE := Some font\<rparr>,
              events := events st @ [CodeFontFileChanged]\<rparr>)"

definition setCodeFontSize :: "int \<Rightarrow> ApplicationSettings \<Rightarrow> ApplicationSettings" where
  "setCodeFontSize size' st =
     (if codeFontSize st = size' then st
      else st\<lparr>m_settings := (m_settings st)\<lparr>KEY_CODE_FONT_SIZE := Some size'\<rparr>,
              events := events st @ [CodeFontSizeChanged]\<rparr>)"

definition resetCodeFont :: "ApplicationSettings \<Rightarrow> ApplicationSettings" where
  "resetCodeFont st = setCodeFontSize DEFAULT_CODE_FONT_SIZE (setCodeFontFile DEFAULT_CODE_FONT_FILE st)"

section \<open>Views of the state used in the statements\<close>

text \<open>
  The list of the recent-projects model, and the \<open>recentProjects\<close> array as the store holds
  it: the entry that \<open>setArrayIndex(i)\<close> followed by the two \<open>value(...).toString()\<close> calls
  reads at index \<open>i\<close>, for every index below the stored size.
\<close>

abbreviation recentList :: "ApplicationSettings \<Rightarrow> MenusData list" where
  "recentList st \<equiv> MenusModel.m_modelList (m_recentProjectsModel st)"

abbreviation sourceList :: "ApplicationSettings \<Rightarrow> ImagesData list" where
  "sourceList st \<equiv> ImagesModel.m_modelList (m_sourceImagesModel st)"

definition storedEntry :: "QSettings \<Rightarrow> nat \<Rightarrow> MenusData" where
  "storedEntry s i = \<lparr>MenusData.name = value_PROJECT_NAME s i, MenusData.file = value_PROJECT_FILE s i\<rparr>"

definition storedRecentProjects :: "QSettings \<Rightarrow> MenusData list" where
  "storedRecentProjects s = map (storedEntry s) [0..<nat (beginReadArray s)]"

text \<open>
  An entry is kept by the read loop when neither its name nor its file is empty; the loop
  reads at most \<open>max_items\<close> indices. \<open>located\<close> describes \<open>projectListIndex\<close>: it is
  \<open>-1\<close> when no entry of the list has the file, and otherwise the position of an entry that
  has it.
\<close>

definition wellFormed :: "MenusData \<Rightarrow> bool" where
  "wellFormed d = (MenusData.name d \<noteq> [] \<and> MenusData.file d \<noteq> [])"

definition loadedRecentProjects :: "QSettings \<Rightarrow> MenusData list" where
  "loadedRecentProjects s =
     filter wellFormed (map (storedEntry s) [0..<nat (min (beginReadArray s) max_items)])"

definition located :: "string \<Rightarrow> MenusData list \<Rightarrow> int \<Rightarrow> bool" where
  "located pf l idx =
     ((idx = - 1 \<and> pf \<notin> set (map MenusData.file l)) \<or>
      (0 \<le> idx \<and> idx < int (length l) \<and> MenusData.file (l ! nat idx) = pf))"

text \<open>
  The store after the block under \<open>// Write to settings\<close> has written the list \<open>l\<close>, the
  condition of the early return, and the list after the \<open>prepend\<close>/\<open>move\<close> step and after
  \<open>removeLast\<close>.
\<close>

definition writtenSettings :: "MenusData list \<Rightarrow> QSettings \<Rightarrow> QSettings" where
  "writtenSettings l s =
     s\<lparr>KEY_RECENT_PROJECTS_size := Some (int (length l)),
       KEY_PROJECT_NAME :=
         (\<lambda>j. if j < length l then Some (MenusData.name (l ! j)) else KEY_PROJECT_NAME s j),
       KEY_PROJECT_FILE :=
         (\<lambda>j. if j < length l then Some (MenusData.file (l ! j)) else KEY_PROJECT_FILE s j)\<rparr>"

definition topmost :: "string \<Rightarrow> ApplicationSettings \<Rightarrow> bool" where
  "topmost projectFile st =
     (projectFile \<noteq> [] \<and> recentList st \<noteq> [] \<and> MenusData.file (hd (recentList st)) = projectFile)"

definition movedList :: "string \<Rightarrow> string \<Rightarrow> MenusData list \<Rightarrow> int \<Rightarrow> MenusData list" where
  "movedList projectName projectFile l idx =
     (if idx = - 1 then \<lparr>MenusData.name = projectName, MenusData.file = projectFile\<rparr> # l
      else if idx > 0 then l ! nat idx # take (nat idx) l @ drop (Suc (nat idx)) l
      else l)"

definition truncated :: "MenusData list \<Rightarrow> MenusData list" where
  "truncated l = (if int (length l) > max_items then butlast l else l)"

text \<open>
  On a list without duplicate files, the \<open>prepend\<close>/\<open>move\<close> step puts the entry with the
  file in front and keeps the order of the others; \<open>touch\<close> is the effect of one call on
  such a list. A call is effective when it gives an entry, that is a non-empty name and a
  non-empty file.
\<close>

definition promoted :: "string \<Rightarrow> string \<Rightarrow> MenusData list \<Rightarrow> MenusData list" where
  "promoted projectName projectFile l =
     (if projectFile \<in> set (map MenusData.file l)
      then filter (\<lambda>d. MenusData.file d = projectFile) l
           @ filter (\<lambda>d. MenusData.file d \<noteq> projectFile) l
      else \<lparr>MenusData.name = projectName, MenusData.file = projectFile\<rparr> # l)"

definition effective :: "string \<times> string \<Rightarrow> bool" where
  "effective call = (fst call \<noteq> [] \<and> snd call \<noteq> [])"

definition touch :: "MenusData list \<Rightarrow> string \<times> string \<Rightarrow> MenusData list" where
  "touch l call = (if effective call then take 6 (promoted (fst call) (snd call) l) else l)"

definition lastEffective :: "(string \<times> string) list \<Rightarrow> (string \<times> string) option" where
  "lastEffective calls = (case filter effective (rev calls) of [] \<Rightarrow> None | call # _ \<Rightarrow> Some call)"

text \<open>A sequence of \<open>updateRecentProjectsModel\<close> calls, stopping at the first failure.\<close>

fun updateRecentProjectsAll ::
  "(string \<times> string) list \<Rightarrow> ApplicationSettings \<Rightarrow> error + ApplicationSettings" where
  "updateRecentProjectsAll [] st = Inr st"
| "updateRecentProjectsAll ((projectName, projectFile) # calls) st =
     (case updateRecentProjectsModel projectName projectFile st of
        Inl e \<Rightarrow> Inl e
      | Inr st' \<Rightarrow> updateRecentProjectsAll calls st')"

text \<open>Running the next operation on the state that the previous one returned.\<close>

definition andThen :: "error + 'a \<Rightarrow> ('a \<Rightarrow> error + 'b) \<Rightarrow> error + 'b" where
  "andThen r f = (case r of Inl e \<Rightarrow> Inl e | Inr x \<Rightarrow> f x)"

text \<open>The files of the list of the recent-projects model, as the last step of a run.\<close>

definition recentFiles :: "ApplicationSettings \<Rightarrow> error + string list" where
  "recentFiles st = Inr (map MenusData.file (recentList st))"

text \<open>
  The invariant that the calls maintain: the list of the model is the stored array, every
  entry is well formed, no file occurs twice, and there are at most six entries.
\<close>

definition recentInv :: "ApplicationSettings \<Rightarrow> bool" where
  "recentInv st =
     (storedRecentProjects (m_settings st) = recentList st \<and>
      list_all wellFormed (recentList st) \<and>
      distinct (map MenusData.file (recentList st)) \<and>
      length (recentList st) \<le> 6)"

section \<open>Example states\<close>

text \<open>
  An empty store, and a state with four default source images (resolved against an example
  data path), no recent projects and no events.
\<close>

definition emptySettings :: QSettings where
  "emptySettings =
     \<lparr>KEY_CUSTOM_SOURCE_IMAGES = None, KEY_RECENT_PROJECTS_size = None,
      KEY_PROJECT_NAME = Map.empty, KEY_PROJECT_FILE = Map.empty,
      KEY_LEGACY_SHADERS = None, KEY_CODE_FONT_FILE = None, KEY_CODE_FONT_SIZE = None\<rparr>"

definition exampleDefaults :: "ImagesData list" where
  "exampleDefaults =
     map (\<lambda>source. \<lparr>ImagesData.name = [], ImagesData.file = ''/usr/share/qqem/'' @ source,
                      width = 0, height = 0, canRemove = False\<rparr>) defaultSources"

definition exampleState :: ApplicationSettings where
  "exampleState =
     \<lparr>m_settings = emptySettings,
      m_sourceImagesModel = \<lparr>ImagesModel.m_modelList = exampleDefaults, m_currentIndex = 0\<rparr>,
      m_backgroundImagesModel = \<lparr>ImagesModel.m_modelList = [], m_currentIndex = 0\<rparr>,
      m_recentProjectsModel = \<lparr>MenusModel.m_modelList = []\<rparr>,
      events = []\<rparr>"

text \<open>
  A state as it is when the application starts with one recent project in the store: the
  list of the model is still empty. \<open>loadedExample\<close> is the same store with the entry in
  the list of the model as well. In \<open>exampleEnv\<close> no file is a readable image.
\<close>

definition storedExample :: ApplicationSettings where
  "storedExample =
     exampleState\<lparr>m_settings := emptySettings
       \<lparr>KEY_RECENT_PROJECTS_size := Some 1,
        KEY_PROJECT_NAME := [0 \<mapsto> ''A''],
        KEY_PROJECT_FILE := [0 \<mapsto> ''/a'']\<rparr>\<rparr>"

definition loadedExample :: ApplicationSettings where
  "loadedExample =
     storedExample\<lparr>m_recentProjectsModel :=
       \<lparr>MenusModel.m_modelList = [\<lparr>MenusData.name = ''A'', MenusData.file = ''/a''\<rparr>]\<rparr>\<rparr>"

definition exampleEnv :: collaborators where
  "exampleEnv = \<lparr>toLocalFile = (\<lambda>s. s), canRead = (\<lambda>s. False), imageSize = (\<lambda>s. (0, 0))\<rparr>"

section \<open>The loops of the recent-projects array\<close>

declare readRecentProjects.simps [simp del]
declare writeRecentProjects.simps [simp del]
declare removeRecentProjectsLoop.simps [simp del]

lemma upt_int_step: "0 \<le> i \<Longrightarrow> i < m \<Longrightarrow> [nat i..<nat m] = nat i # [nat (i + 1)..<nat m]"
  by (simp add: upt_conv_Cons nat_add_distrib)

lemma wellFormed_storedEntry:
  "wellFormed (storedEntry s i) \<longleftrightarrow> value_PROJECT_NAME s i \<noteq> [] \<and> value_PROJECT_FILE s i \<noteq> []"
  by (simp add: wellFormed_def storedEntry_def)

lemma readRecentProjects_stop:
  "\<not> (i < n \<and> i < max_items) \<Longrightarrow> readRecentProjects s pf n i l idx = (l, idx)"
  by (subst readRecentProjects.simps) auto

lemma readRecentProjects_keep:
  "i < n \<Longrightarrow> i < max_items \<Longrightarrow> wellFormed (storedEntry s (nat i)) \<Longrightarrow>
   readRecentProjects s pf n i l idx =
     readRecentProjects s pf n (i + 1) (l @ [storedEntry s (nat i)])
       (if MenusData.file (storedEntry s (nat i)) = pf then int (length l) else idx)"
  by (subst readRecentProjects.simps) (simp add: wellFormed_storedEntry, simp add: storedEntry_def)

lemma readRecentProjects_skip:
  "i < n \<Longrightarrow> i < max_items \<Longrightarrow> \<not> wellFormed (storedEntry s (nat i)) \<Longrightarrow>
   readRecentProjects s pf n i l idx = readRecentProjects s pf n (i + 1) l idx"
  by (subst readRecentProjects.simps) (auto simp: wellFormed_storedEntry)

lemma readRecentProjects_fst_aux:
  "nat (min n max_items - i) = k \<Longrightarrow> 0 \<le> i \<Longrightarrow>
   fst (readRecentProjects s pf n i l idx) =
     l @ filter wellFormed (map (storedEntry s) [nat i..<nat (min n max_items)])"
proof (induction k arbitrary: i l idx)
  case 0
  then have "\<not> (i < n \<and> i < max_items)" by auto
  moreover from 0 have "nat (min n max_items) \<le> nat i" by auto
  ultimately show ?case by (simp add: readRecentProjects_stop)
next
  case (Suc k)
  then have lt: "i < n" "i < max_items" by auto
  have step: "[nat i..<nat (min n max_items)] = nat i # [nat (i + 1)..<nat (min n max_items)]"
    using lt Suc.prems by (intro upt_int_step) auto
  have k: "nat (min n max_items - (i + 1)) = k" "0 \<le> i + 1"
    using Suc.prems by auto
  show ?case
  proof (cases "wellFormed (storedEntry s (nat i))")
    case True
    then show ?thesis
      using Suc.IH [OF k] unfolding readRecentProjects_keep [OF lt True] step by simp
  next
    case False
    then show ?thesis
      using Suc.IH [OF k] unfolding readRecentProjects_skip [OF lt False] step by simp
  qed
qed

lemma readRecentProjects_fst:
  "0 \<le> i \<Longrightarrow>
   fst (readRecentProjects s pf n i l idx) =
     l @ filter wellFormed (map (storedEntry s) [nat i..<nat (min n max_items)])"
  by (rule readRecentProjects_fst_aux [OF refl])

lemma located_append:
  "located pf l idx \<Longrightarrow>
   located pf (l @ [d]) (if MenusData.file d = pf then int (length l) else idx)"
  by (auto simp: located_def nth_append)

lemma readRecentProjects_located_aux:
  "nat (min n max_items - i) = k \<Longrightarrow> located pf l idx \<Longrightarrow>
   located pf (fst (readRecentProjects s pf n i l idx)) (snd (readRecentProjects s pf n i l idx))"
proof (induction k arbitrary: i l idx)
  case 0
  then have "\<not> (i < n \<and> i < max_items)" by auto
  with 0 show ?case by (simp add: readRecentProjects_stop)
next
  case (Suc k)
  then have lt: "i < n" "i < max_items" by auto
  have k: "nat (min n max_items - (i + 1)) = k"
    using Suc.prems by auto
  show ?case
  proof (cases "wellFormed (storedEntry s (nat i))")
    case True
    show ?thesis
      using Suc.IH [OF k located_append [OF Suc.prems(2)]]
      unfolding readRecentProjects_keep [OF lt True] .
  next
    case False
    show ?thesis
      using Suc.IH [OF k Suc.prems(2)]
      unfolding readRecentProjects_skip [OF lt False] .
  qed
qed

lemma readRecentProjects_located:
  "located pf (fst (readRecentProjects s pf (beginReadArray s) 0 [] (- 1)))
     (snd (readRecentProjects s pf (beginReadArray s) 0 [] (- 1)))"
  by (rule readRecentProjects_located_aux [OF refl]) (simp add: located_def)

lemma readRecentProjects_loaded:
  "fst (readRecentProjects s pf (beginReadArray s) 0 [] (- 1)) = loadedRecentProjects s"
  using readRecentProjects_fst [of 0 s pf "beginReadArray s" "[]" "- 1"]
  by (simp add: loadedRecentProjects_def)

lemma length_loadedRecentProjects: "length (loadedRecentProjects s) \<le> 6"
proof -
  have "length (loadedRecentProjects s) \<le> length [0..<nat (min (beginReadArray s) max_items)]"
    unfolding loadedRecentProjects_def
    by (rule order_trans [OF length_filter_le]) simp
  also have "\<dots> \<le> 6" by (simp add: max_items_def)
  finally show ?thesis .
qed

lemma wellFormed_loadedRecentProjects: "\<forall>d \<in> set (loadedRecentProjects s). wellFormed d"
  by (simp add: loadedRecentProjects_def)

lemma writeRecentProjects_stop:
  "\<not> i < length l \<Longrightarrow> writeRecentProjects l i s g = (s, g)"
  by (subst writeRecentProjects.simps) simp

lemma writeRecentProjects_step:
  "i < length l \<Longrightarrow>
   writeRecentProjects l i s g =
     writeRecentProjects l (Suc i)
       (s\<lparr>KEY_PROJECT_NAME := (KEY_PROJECT_NAME s)(i \<mapsto> MenusData.name (l ! i)),
          KEY_PROJECT_FILE := (KEY_PROJECT_FILE s)(i \<mapsto> MenusData.file (l ! i))\<rparr>)
       (max g (Suc i))"
  by (subst writeRecentProjects.simps) simp

lemma writeRecentProjects_result:
  "length l - i = k \<Longrightarrow>
   writeRecentProjects l i s g =
     (s\<lparr>KEY_PROJECT_NAME :=
           (\<lambda>j. if i \<le> j \<and> j < length l then Some (MenusData.name (l ! j)) else KEY_PROJECT_NAME s j),
         KEY_PROJECT_FILE :=
           (\<lambda>j. if i \<le> j \<and> j < length l then Some (MenusData.file (l ! j)) else KEY_PROJECT_FILE s j)\<rparr>,
      if i < length l then max g (length l) else g)"
proof (induction k arbitrary: i s g)
  case 0
  then have "\<not> i < length l" by simp
  then show ?case
    by (simp add: writeRecentProjects_stop) (rule QSettings.equality; auto simp: fun_eq_iff)
next
  case (Suc k)
  then have lt: "i < length l" and k: "length l - Suc i = k" by auto
  show ?case
    unfolding writeRecentProjects_step [OF lt] Suc.IH [OF k]
    using lt by (auto simp: fun_eq_iff le_Suc_eq intro!: QSettings.equality)
qed

lemma write_block:
  obtains s' where
    "writeRecentProjects l 0 (beginWriteArray s) 0 = (s', length l)"
    "endArray (length l) s' = writtenSettings l s"
proof -
  have "endArray (length l)
          (fst (writeRecentProjects l 0 (beginWriteArray s) 0)) = writtenSettings l s"
    by (rule QSettings.equality)
      (simp_all add: writeRecentProjects_result [OF refl] beginWriteArray_def endArray_def
        writtenSettings_def fun_eq_iff)
  moreover have "snd (writeRecentProjects l 0 (beginWriteArray s) 0) = length l"
    by (simp add: writeRecentProjects_result [OF refl])
  ultimately show thesis
    using that [of "fst (writeRecentProjects l 0 (beginWriteArray s) 0)"]
    by (metis prod.collapse)
qed

lemma storedRecentProjects_written: "storedRecentProjects (writtenSettings l s) = l"
  by (rule nth_equalityI)
    (simp_all add: storedRecentProjects_def writtenSettings_def beginReadArray_def storedEntry_def
      value_PROJECT_NAME_def value_PROJECT_FILE_def)

lemma update_topmost:
  "topmost projectFile st \<Longrightarrow> updateRecentProjectsModel projectName projectFile st = Inr st"
  by (simp add: updateRecentProjectsModel_def topmost_def)

lemma read_block:
  obtains idx where
    "readRecentProjects s pf (beginReadArray s) 0 [] (- 1) = (loadedRecentProjects s, idx)"
    "located pf (loadedRecentProjects s) idx"
proof -
  obtain l idx where r: "readRecentProjects s pf (beginReadArray s) 0 [] (- 1) = (l, idx)"
    by (cases "readRecentProjects s pf (beginReadArray s) 0 [] (- 1)")
  have "l = loadedRecentProjects s"
    using readRecentProjects_loaded [of s pf] r by simp
  moreover have "located pf l idx"
    using readRecentProjects_located [of pf s] r by simp
  ultimately show thesis
    using r that by simp
qed

lemma update_not_given:
  assumes "\<not> topmost projectFile st" and "projectName = [] \<or> projectFile = []"
  shows "updateRecentProjectsModel projectName projectFile st =
           Inr (resetRecentProjectsModel (loadedRecentProjects (m_settings st)) st)"
proof -
  obtain idx where
    "readRecentProjects (m_settings st) projectFile (beginReadArray (m_settings st)) 0 [] (- 1) =
       (loadedRecentProjects (m_settings st), idx)"
    by (rule read_block)
  with assms show ?thesis
    by (auto simp: updateRecentProjectsModel_def topmost_def)
qed

lemma qlist_move_front:
  "0 < idx \<Longrightarrow> idx < int (length l) \<Longrightarrow>
   qlist_move l idx 0 = Inr (l ! nat idx # take (nat idx) l @ drop (Suc (nat idx)) l)"
  by (auto simp: qlist_move_def)

lemma update_given:
  assumes "\<not> topmost projectFile st" and "projectName \<noteq> []" and "projectFile \<noteq> []"
  obtains idx where
    "located projectFile (loadedRecentProjects (m_settings st)) idx"
    "updateRecentProjectsModel projectName projectFile st =
       Inr (resetRecentProjectsModel
              (truncated (movedList projectName projectFile (loadedRecentProjects (m_settings st)) idx))
              (st\<lparr>m_settings :=
                    writtenSettings
                      (truncated (movedList projectName projectFile
                         (loadedRecentProjects (m_settings st)) idx))
                      (m_settings st)\<rparr>))"
proof -
  let ?s = "m_settings st"
  obtain idx where
    r: "readRecentProjects ?s projectFile (beginReadArray ?s) 0 [] (- 1) =
          (loadedRecentProjects ?s, idx)"
    and loc: "located projectFile (loadedRecentProjects ?s) idx"
    by (rule read_block)
  have mv: "(if idx = - 1
             then Inr (\<lparr>MenusData.name = projectName, MenusData.file = projectFile\<rparr>
                       # loadedRecentProjects ?s)
             else if idx > 0 then qlist_move (loadedRecentProjects ?s) idx 0
             else Inr (loadedRecentProjects ?s)) =
            Inr (movedList projectName projectFile (loadedRecentProjects ?s) idx)"
    using loc by (auto simp: movedList_def located_def qlist_move_front)
  let ?t = "truncated (movedList projectName projectFile (loadedRecentProjects ?s) idx)"
  obtain s' where
    w: "writeRecentProjects ?t 0 (beginWriteArray ?s) 0 = (s', length ?t)"
       "endArray (length ?t) s' = writtenSettings ?t ?s"
    by (rule write_block)
  have "updateRecentProjectsModel projectName projectFile st =
       Inr (resetRecentProjectsModel
              (truncated (movedList projectName projectFile (loadedRecentProjects ?s) idx))
              (st\<lparr>m_settings :=
                    writtenSettings
                      (truncated (movedList projectName projectFile (loadedRecentProjects ?s) idx))
                      ?s\<rparr>))"
    using assms unfolding updateRecentProjectsModel_def topmost_def
    by (auto simp add: r mv Let_def w truncated_def [symmetric] simp del: One_nat_def)
  with loc show thesis
    by (rule that)
qed

lemma loaded_eq_stored:
  assumes "recentInv st"
  shows "loadedRecentProjects (m_settings st) = recentList st"
proof -
  let ?s = "m_settings st"
  have st: "map (storedEntry ?s) [0..<nat (beginReadArray ?s)] = recentList st"
    using assms by (simp add: recentInv_def storedRecentProjects_def)
  then have "length (recentList st) = nat (beginReadArray ?s)"
    by (metis length_map length_upt diff_zero)
  then have "nat (beginReadArray ?s) \<le> 6"
    using assms by (simp add: recentInv_def)
  then have "nat (min (beginReadArray ?s) max_items) = nat (beginReadArray ?s)"
    by (simp add: max_items_def min_def)
  then have "loadedRecentProjects ?s = filter wellFormed (recentList st)"
    by (simp add: loadedRecentProjects_def st)
  also have "\<dots> = recentList st"
    using assms by (simp add: recentInv_def list_all_iff)
  finally show ?thesis .
qed

lemma filter_unique_key:
  assumes "\<forall>d \<in> set xs. g d \<noteq> g x" and "\<forall>d \<in> set ys. g d \<noteq> g x"
  shows "filter (\<lambda>d. g d = g x) (xs @ x # ys) = [x]"
    and "filter (\<lambda>d. g d \<noteq> g x) (xs @ x # ys) = xs @ ys"
proof -
  have e: "filter (\<lambda>d. g d = g x) xs = []" "filter (\<lambda>d. g d = g x) ys = []"
    using assms by (auto simp: filter_empty_conv)
  have i: "filter (\<lambda>d. g d \<noteq> g x) xs = xs" "filter (\<lambda>d. g d \<noteq> g x) ys = ys"
    using assms by (auto simp: filter_id_conv)
  show "filter (\<lambda>d. g d = g x) (xs @ x # ys) = [x]"
    by (simp add: e)
  show "filter (\<lambda>d. g d \<noteq> g x) (xs @ x # ys) = xs @ ys"
    by (simp add: i)
qed

lemma nth_to_front_filter:
  assumes "distinct (map g l)" and "k < length l"
  shows "l ! k # take k l @ drop (Suc k) l =
           filter (\<lambda>d. g d = g (l ! k)) l @ filter (\<lambda>d. g d \<noteq> g (l ! k)) l"
proof -
  have l: "take k l @ l ! k # drop (Suc k) l = l"
    using assms(2) by (simp add: id_take_nth_drop [symmetric])
  have "distinct (map g (take k l @ l ! k # drop (Suc k) l))"
    using assms(1) by (simp only: l)
  then have "\<forall>d \<in> set (take k l). g d \<noteq> g (l ! k)"
    "\<forall>d \<in> set (drop (Suc k) l). g d \<noteq> g (l ! k)"
    by (auto simp: image_iff)
  from filter_unique_key [OF this] show ?thesis
    by (simp only: l) simp
qed

lemma movedList_promoted:
  assumes "distinct (map MenusData.file l)" and "located pf l idx"
  shows "movedList pn pf l idx = promoted pn pf l"
proof (cases "idx = - 1")
  case True
  with assms(2) show ?thesis
    by (auto simp: movedList_def promoted_def located_def)
next
  case False
  with assms(2) have k: "nat idx < length l" "MenusData.file (l ! nat idx) = pf" "0 \<le> idx"
    by (auto simp: located_def)
  then have mem: "pf \<in> set (map MenusData.file l)"
    by (metis length_map nth_map nth_mem)
  have "movedList pn pf l idx = l ! nat idx # take (nat idx) l @ drop (Suc (nat idx)) l"
  proof (cases "idx = 0")
    case True
    with k show ?thesis
      by (cases l) (simp_all add: movedList_def)
  next
    case False
    with k \<open>idx \<noteq> - 1\<close> show ?thesis
      by (simp add: movedList_def)
  qed
  also have "\<dots> = promoted pn pf l"
    using nth_to_front_filter [OF assms(1) k(1)] mem by (simp add: promoted_def k(2))
  finally show ?thesis .
qed

lemma promoted_hd:
  "promoted pn pf l \<noteq> [] \<and> MenusData.file (hd (promoted pn pf l)) = pf"
proof (cases "pf \<in> set (map MenusData.file l)")
  case True
  then have ne: "filter (\<lambda>d. MenusData.file d = pf) l \<noteq> []"
    by (auto simp: filter_empty_conv)
  then have "hd (filter (\<lambda>d. MenusData.file d = pf) l) \<in> set (filter (\<lambda>d. MenusData.file d = pf) l)"
    by (rule hd_in_set)
  with ne True show ?thesis
    by (simp add: promoted_def)
next
  case False
  then show ?thesis by (simp add: promoted_def)
qed

lemma promoted_distinct:
  "distinct (map MenusData.file l) \<Longrightarrow> distinct (map MenusData.file (promoted pn pf l))"
  by (auto simp: promoted_def distinct_map_filter)

lemma promoted_wellFormed:
  "pn \<noteq> [] \<Longrightarrow> pf \<noteq> [] \<Longrightarrow> list_all wellFormed l \<Longrightarrow> list_all wellFormed (promoted pn pf l)"
  by (auto simp: promoted_def list_all_iff wellFormed_def)

lemma promoted_length: "length (promoted pn pf l) \<le> Suc (length l)"
  using sum_length_filter_compl [of "\<lambda>d. MenusData.file d = pf" l]
  by (simp add: promoted_def)

lemma truncated_take:
  assumes "length l \<le> 7"
  shows "truncated l = take 6 l"
proof (cases "length l = 7")
  case True
  then show ?thesis
    by (simp add: truncated_def max_items_def butlast_conv_take)
next
  case False
  then show ?thesis
    using assms by (simp add: truncated_def max_items_def)
qed

lemma promoted_topmost:
  assumes "distinct (map MenusData.file l)" and "l \<noteq> []" and "MenusData.file (hd l) = pf"
  shows "promoted pn pf l = l"
proof -
  have "located pf l 0"
    using assms by (simp add: located_def hd_conv_nth)
  from movedList_promoted [OF assms(1) this, of pn] show ?thesis
    by (simp add: movedList_def)
qed

lemma recentInv_reset_written:
  assumes "list_all wellFormed l" and "distinct (map MenusData.file l)" and "length l \<le> 6"
  shows "recentInv (resetRecentProjectsModel l (st\<lparr>m_settings := writtenSettings l s\<rparr>))"
  using assms by (simp add: recentInv_def resetRecentProjectsModel_def storedRecentProjects_written)

lemma update_step:
  assumes inv: "recentInv st"
  shows "\<exists>st'. updateRecentProjectsModel pn pf st = Inr st' \<and> recentInv st' \<and>
           recentList st' =
             (if pn \<noteq> [] \<and> pf \<noteq> [] then take 6 (promoted pn pf (recentList st))
              else recentList st)"
proof (cases "topmost pf st")
  case True
  have "take 6 (promoted pn pf (recentList st)) = recentList st"
    using promoted_topmost [of "recentList st" pf pn] True inv
    by (simp add: topmost_def recentInv_def)
  with True inv show ?thesis
    by (simp add: update_topmost)
next
  case nt: False
  show ?thesis
  proof (cases "pn \<noteq> [] \<and> pf \<noteq> []")
    case False
    then have "updateRecentProjectsModel pn pf st = Inr (resetRecentProjectsModel (recentList st) st)"
      using update_not_given [OF nt, of pn] loaded_eq_stored [OF inv] by auto
    moreover have "recentInv (resetRecentProjectsModel (recentList st) st)"
      using inv by (simp add: recentInv_def resetRecentProjectsModel_def)
    ultimately show ?thesis
      using False by (auto simp: resetRecentProjectsModel_def)
  next
    case True
    then have pn: "pn \<noteq> []" and pf: "pf \<noteq> []" by auto
    let ?l = "recentList st"
    from update_given [OF nt pn pf] loaded_eq_stored [OF inv]
    obtain idx where loc: "located pf ?l idx"
      and upd: "updateRecentProjectsModel pn pf st =
        Inr (resetRecentProjectsModel (truncated (movedList pn pf ?l idx))
              (st\<lparr>m_settings := writtenSettings (truncated (movedList pn pf ?l idx)) (m_settings st)\<rparr>))"
      by metis
    have d: "distinct (map MenusData.file ?l)" and w: "list_all wellFormed ?l" and len: "length ?l \<le> 6"
      using inv by (simp_all add: recentInv_def)
    have mv: "movedList pn pf ?l idx = promoted pn pf ?l"
      by (rule movedList_promoted [OF d loc])
    have "length (promoted pn pf ?l) \<le> 7"
      using promoted_length [of pn pf ?l] len by simp
    then have tr: "truncated (promoted pn pf ?l) = take 6 (promoted pn pf ?l)"
      by (rule truncated_take)
    let ?t = "take 6 (promoted pn pf ?l)"
    have "list_all wellFormed ?t"
      using promoted_wellFormed [OF pn pf w] by (auto simp: list_all_iff dest: in_set_takeD)
    moreover have "distinct (map MenusData.file ?t)"
      using promoted_distinct [OF d, of pn pf] by (simp add: take_map [symmetric])
    moreover have "length ?t \<le> 6" by simp
    ultimately have "recentInv (resetRecentProjectsModel ?t (st\<lparr>m_settings := writtenSettings ?t (m_settings st)\<rparr>))"
      by (rule recentInv_reset_written)
    with upd True show ?thesis
      by (simp add: mv tr resetRecentProjectsModel_def)
  qed
qed

lemma updateRecentProjectsAll_inv:
  "recentInv st \<Longrightarrow>
   \<exists>st'. updateRecentProjectsAll calls st = Inr st' \<and> recentInv st' \<and>
         recentList st' = foldl touch (recentList st) calls"
proof (induction calls arbitrary: st)
  case Nil
  then show ?case by simp
next
  case (Cons call calls)
  obtain pn pf where call: "call = (pn, pf)" by (cases call)
  from update_step [OF Cons.prems, of pn pf]
  obtain st1 where st1: "updateRecentProjectsModel pn pf st = Inr st1" "recentInv st1"
    "recentList st1 = touch (recentList st) call"
    by (auto simp: touch_def effective_def call)
  from Cons.IH [OF st1(2)] st1(1,3) show ?case
    by (simp add: call)
qed

lemma lastEffective_snoc:
  "lastEffective (calls @ [call]) = (if effective call then Some call else lastEffective calls)"
  by (simp add: lastEffective_def)

lemma touch_hd:
  "effective call \<Longrightarrow> touch l call \<noteq> [] \<and> MenusData.file (hd (touch l call)) = snd call"
  using promoted_hd [of "fst call" "snd call" l] by (simp add: touch_def)

lemma foldl_touch_hd:
  "lastEffective calls = Some call \<Longrightarrow>
   foldl touch l calls \<noteq> [] \<and> MenusData.file (hd (foldl touch l calls)) = snd call"
proof (induction calls rule: rev_induct)
  case Nil
  then show ?case by (simp add: lastEffective_def)
next
  case (snoc c calls)
  show ?case
  proof (cases "effective c")
    case True
    with snoc.prems have "c = call" by (simp add: lastEffective_snoc)
    with True touch_hd [of c "foldl touch l calls"] show ?thesis by simp
  next
    case False
    with snoc show ?thesis by (simp add: lastEffective_snoc touch_def)
  qed
qed

lemma recentInv_empty:
  "recentList st = [] \<Longrightarrow> storedRecentProjects (m_settings st) = [] \<Longrightarrow> recentInv st"
  by (simp add: recentInv_def)

lemma removeRecentProjectsLoop_stop:
  "\<not> i < n \<Longrightarrow> removeRecentProjectsLoop pf n i st = Inr st"
  by (subst removeRecentProjectsLoop.simps) simp

lemma removeRecentProjectsLoop_skip:
  "i < n \<Longrightarrow> value_PROJECT_FILE (m_settings st) (nat i) \<noteq> pf \<Longrightarrow>
   removeRecentProjectsLoop pf n i st = removeRecentProjectsLoop pf n (i + 1) st"
  by (subst removeRecentProjectsLoop.simps) simp

lemma removeRecentProjectsLoop_match:
  "i < n \<Longrightarrow> value_PROJECT_FILE (m_settings st) (nat i) = pf \<Longrightarrow>
   removeRecentProjectsLoop pf n i st =
     (case qlist_removeAt (recentList st) i of
        Inl e \<Rightarrow> Inl e
      | Inr l \<Rightarrow>
          Inr (resetRecentProjectsModel l
                 (st\<lparr>m_settings := (m_settings st)
                       \<lparr>KEY_PROJECT_NAME := (KEY_PROJECT_NAME (m_settings st))(nat i := None),
                        KEY_PROJECT_FILE := (KEY_PROJECT_FILE (m_settings st))(nat i := None)\<rparr>\<rparr>)))"
  by (subst removeRecentProjectsLoop.simps) simp

lemma removeRecentProjectsLoop_no_match:
  "nat (n - i) = k \<Longrightarrow> 0 \<le> i \<Longrightarrow>
   \<forall>j. nat i \<le> j \<and> j < nat n \<longrightarrow> value_PROJECT_FILE (m_settings st) j \<noteq> pf \<Longrightarrow>
   removeRecentProjectsLoop pf n i st = Inr st"
proof (induction k arbitrary: i)
  case 0
  then show ?case by (simp add: removeRecentProjectsLoop_stop)
next
  case (Suc k)
  then have lt: "i < n" by auto
  with Suc.prems have "value_PROJECT_FILE (m_settings st) (nat i) \<noteq> pf" by auto
  with lt have "removeRecentProjectsLoop pf n i st = removeRecentProjectsLoop pf n (i + 1) st"
    by (rule removeRecentProjectsLoop_skip)
  also have "\<dots> = Inr st"
  proof (rule Suc.IH)
    show "nat (n - (i + 1)) = k" "0 \<le> i + 1"
      using Suc.prems by auto
    show "\<forall>j. nat (i + 1) \<le> j \<and> j < nat n \<longrightarrow> value_PROJECT_FILE (m_settings st) j \<noteq> pf"
    proof (intro allI impI)
      fix j
      assume "nat (i + 1) \<le> j \<and> j < nat n"
      then have "nat i \<le> j \<and> j < nat n" by linarith
      with Suc.prems(3) show "value_PROJECT_FILE (m_settings st) j \<noteq> pf" by blast
    qed
  qed
  finally show ?case .
qed

lemma removeRecentProjectsLoop_advance:
  "nat (int m - i) = k \<Longrightarrow> 0 \<le> i \<Longrightarrow> i \<le> int m \<Longrightarrow> int m < n \<Longrightarrow>
   \<forall>j. nat i \<le> j \<and> j < m \<longrightarrow> value_PROJECT_FILE (m_settings st) j \<noteq> pf \<Longrightarrow>
   removeRecentProjectsLoop pf n i st = removeRecentProjectsLoop pf n (int m) st"
proof (induction k arbitrary: i)
  case 0
  then have "i = int m" by simp
  then show ?case by simp
next
  case (Suc k)
  then have lt: "i < n" "i < int m" by auto
  with Suc.prems have "value_PROJECT_FILE (m_settings st) (nat i) \<noteq> pf" by auto
  with lt have "removeRecentProjectsLoop pf n i st = removeRecentProjectsLoop pf n (i + 1) st"
    by (intro removeRecentProjectsLoop_skip)
  also have "\<dots> = removeRecentProjectsLoop pf n (int m) st"
  proof (rule Suc.IH)
    show "nat (int m - (i + 1)) = k" "0 \<le> i + 1" "i + 1 \<le> int m" "int m < n"
      using Suc.prems lt by auto
    show "\<forall>j. nat (i + 1) \<le> j \<and> j < m \<longrightarrow> value_PROJECT_FILE (m_settings st) j \<noteq> pf"
    proof (intro allI impI)
      fix j
      assume "nat (i + 1) \<le> j \<and> j < m"
      then have "nat i \<le> j \<and> j < m" by linarith
      with Suc.prems(5) show "value_PROJECT_FILE (m_settings st) j \<noteq> pf" by blast
    qed
  qed
  finally show ?case .
qed

section \<open>Facts about the source-image operations\<close>

lemma containsFile_iff:
  "containsFile l sourceImage \<longleftrightarrow> sourceImage \<in> set (map ImagesData.file l)"
  by (induction l) auto

lemma customSourceImages_update:
  "customSourceImages (s\<lparr>KEY_CUSTOM_SOURCE_IMAGES := Some l\<rparr>) = l"
  by (simp add: customSourceImages_def)

lemma qlist_removeAt_valid:
  "0 \<le> i \<Longrightarrow> i < int (length xs) \<Longrightarrow>
   qlist_removeAt xs i = Inr (take (nat i) xs @ drop (Suc (nat i)) xs)"
  by (simp add: qlist_removeAt_def)

lemma removeSourceImage_invalid_position:
  "0 \<le> index \<Longrightarrow> index < int (length (sourceList st)) \<Longrightarrow>
   index - int (length defaultSources) < 0 \<or>
   index - int (length defaultSources) \<ge> int (length (customSourceImages (m_settings st))) \<Longrightarrow>
   removeSourceImage index st = Inl IndexOutOfRange"
  by (auto simp: removeSourceImage_def Let_def qlist_removeAt_def)

lemma currentImageFile_in_range:
  "0 \<le> m_currentIndex m \<Longrightarrow> m_currentIndex m < int (length (ImagesModel.m_modelList m)) \<Longrightarrow>
   currentImageFile m = Inr (ImagesData.file (ImagesModel.m_modelList m ! nat (m_currentIndex m)))"
  by (simp add: currentImageFile_def qlist_at_def)

lemma currentImageFile_above_range:
  "m_currentIndex m \<ge> int (length (ImagesModel.m_modelList m)) \<Longrightarrow> currentImageFile m = Inr []"
  by (simp add: currentImageFile_def)

lemma currentImageFile_below_range:
  "m_currentIndex m < 0 \<Longrightarrow> currentImageFile m = Inl IndexOutOfRange"
  by (simp add: currentImageFile_def qlist_at_def)

section \<open>Recent-projects invariant\<close>

text \<open>
  C1. Start with an empty list in the model and an empty stored array. Then every sequence
  of \<open>updateRecentProjectsModel\<close> calls runs without failure, and afterwards the list of the
  model and the stored array each have at most 6 entries and no file twice, and the file of
  the last call that gave an entry (non-empty name and file) is at index 0 of both. In
  particular the calls (A, /a), (B, /b), (A, /a) leave the list [(A, /a), (B, /b)].
\<close>

theorem recentProjects_invariant:
  assumes "recentList st = []" and "storedRecentProjects (m_settings st) = []"
  shows "(\<exists>st'. updateRecentProjectsAll calls st = Inr st' \<and>
            length (recentList st') \<le> 6 \<and>
            length (storedRecentProjects (m_settings st')) \<le> 6 \<and>
            distinct (map MenusData.file (recentList st')) \<and>
            distinct (map MenusData.file (storedRecentProjects (m_settings st'))) \<and>
            (\<forall>projectName projectFile.
               lastEffective calls = Some (projectName, projectFile) \<longrightarrow>
                 recentList st' \<noteq> [] \<and>
                 MenusData.file (recentList st' ! 0) = projectFile \<and>
                 storedRecentProjects (m_settings st') \<noteq> [] \<and>
                 MenusData.file (storedRecentProjects (m_settings st') ! 0) = projectFile)) \<and>
         (\<exists>st'. updateRecentProjectsAll [(''A'', ''/a''), (''B'', ''/b''), (''A'', ''/a'')] st = Inr st' \<and>
            recentList st' =
              [\<lparr>MenusData.name = ''A'', MenusData.file = ''/a''\<rparr>,
               \<lparr>MenusData.name = ''B'', MenusData.file = ''/b''\<rparr>])"
proof
  have inv: "recentInv st"
    using assms by (rule recentInv_empty)
  from updateRecentProjectsAll_inv [OF inv, of calls]
  obtain st' where st': "updateRecentProjectsAll calls st = Inr st'" "recentInv st'"
    "recentList st' = foldl touch (recentList st) calls"
    by blast
  have top: "recentList st' \<noteq> [] \<and> MenusData.file (recentList st' ! 0) = projectFile"
    if "lastEffective calls = Some (projectName, projectFile)" for projectName projectFile
    using foldl_touch_hd [OF that, of "recentList st"] st'(3) by (auto simp: hd_conv_nth)
  from st'(1,2) top
  show "\<exists>st'. updateRecentProjectsAll calls st = Inr st' \<and>
            length (recentList st') \<le> 6 \<and>
            length (storedRecentProjects (m_settings st')) \<le> 6 \<and>
            distinct (map MenusData.file (recentList st')) \<and>
            distinct (map MenusData.file (storedRecentProjects (m_settings st'))) \<and>
            (\<forall>projectName projectFile.
               lastEffective calls = Some (projectName, projectFile) \<longrightarrow>
                 recentList st' \<noteq> [] \<and>
                 MenusData.file (recentList st' ! 0) = projectFile \<and>
                 storedRecentProjects (m_settings st') \<noteq> [] \<and>
                 MenusData.file (storedRecentProjects (m_settings st') ! 0) = projectFile)"
    by (auto simp: recentInv_def)
  from updateRecentProjectsAll_inv [OF inv, of "[(''A'', ''/a''), (''B'', ''/b''), (''A'', ''/a'')]"]
  show "\<exists>st'. updateRecentProjectsAll [(''A'', ''/a''), (''B'', ''/b''), (''A'', ''/a'')] st = Inr st' \<and>
            recentList st' =
              [\<lparr>MenusData.name = ''A'', MenusData.file = ''/a''\<rparr>,
               \<lparr>MenusData.name = ''B'', MenusData.file = ''/b''\<rparr>]"
    using assms(1) by (auto simp: touch_def effective_def promoted_def)
qed

theorem recentProjects_invariant_witness:
  "recentList exampleState = [] \<and> storedRecentProjects (m_settings exampleState) = [] \<and>
   (\<exists>st'. updateRecentProjectsAll [(''A'', ''/a''), ('''', ''/b'')] exampleState = Inr st' \<and>
      length (recentList st') \<le> 6 \<and> MenusData.file (recentList st' ! 0) = ''/a'')"
proof -
  have h: "recentList exampleState = []" "storedRecentProjects (m_settings exampleState) = []"
    by (simp_all add: exampleState_def emptySettings_def storedRecentProjects_def beginReadArray_def)
  have l: "lastEffective [(''A'', ''/a''), ('''', ''/b'')] = Some (''A'', ''/a'')"
    by (simp add: lastEffective_def effective_def)
  from recentProjects_invariant [OF h, of "[(''A'', ''/a''), ('''', ''/b'')]"] l h
  show ?thesis by auto
qed

section \<open>Updating the recent projects\<close>

text \<open>
  C4. When the file is not empty and is the file of the entry at index 0 of the list of the
  model, \<open>updateRecentProjectsModel\<close> returns the state as it was: the list, the store and
  the events are unchanged. Hence two such calls in a row leave the state unchanged as well.
\<close>

theorem updateRecentProjects_topmost_noop:
  assumes "projectFile \<noteq> []" and "recentList st \<noteq> []"
    and "MenusData.file (recentList st ! 0) = projectFile"
  shows "updateRecentProjectsModel projectName projectFile st = Inr st \<and>
         updateRecentProjectsAll [(projectName, projectFile), (projectName, projectFile)] st = Inr st"
proof -
  have "topmost projectFile st"
    using assms by (simp add: topmost_def hd_conv_nth)
  then have "updateRecentProjectsModel projectName projectFile st = Inr st"
    by (rule update_topmost)
  then show ?thesis by simp
qed

theorem updateRecentProjects_topmost_noop_witness:
  "''/a'' \<noteq> [] \<and> recentList loadedExample \<noteq> [] \<and>
   MenusData.file (recentList loadedExample ! 0) = ''/a'' \<and>
   updateRecentProjectsModel ''other name'' ''/a'' loadedExample = Inr loadedExample"
  using updateRecentProjects_topmost_noop [of "''/a''" loadedExample "''other name''"]
  by (simp add: loadedExample_def)

text \<open>
  C10. When the name or the file is empty and the early return does not apply, the call
  writes nothing to the store, and the list of the model becomes the list read from the
  store: the entries at the indices below the stored size and below \<open>max_items\<close> whose name
  and file are both non-empty. There is a state in which such a call changes the list of
  the model and leaves the store as it was.
\<close>

theorem updateRecentProjects_without_entry:
  "((projectName = [] \<or> projectFile = []) \<and>
    \<not> (projectFile \<noteq> [] \<and> recentList st \<noteq> [] \<and> MenusData.file (hd (recentList st)) = projectFile) \<longrightarrow>
      (\<exists>st'. updateRecentProjectsModel projectName projectFile st = Inr st' \<and>
         m_settings st' = m_settings st \<and>
         recentList st' =
           filter wellFormed
             (map (storedEntry (m_settings st))
                [0..<nat (min (beginReadArray (m_settings st)) max_items)]))) \<and>
   (\<exists>st0 st'. updateRecentProjectsModel [] [] st0 = Inr st' \<and>
      m_settings st' = m_settings st0 \<and> recentList st' \<noteq> recentList st0)"
proof (intro conjI impI)
  assume a: "(projectName = [] \<or> projectFile = []) \<and>
    \<not> (projectFile \<noteq> [] \<and> recentList st \<noteq> [] \<and> MenusData.file (hd (recentList st)) = projectFile)"
  then have "\<not> topmost projectFile st" "projectName = [] \<or> projectFile = []"
    by (simp_all add: topmost_def)
  from update_not_given [OF this]
  show "\<exists>st'. updateRecentProjectsModel projectName projectFile st = Inr st' \<and>
         m_settings st' = m_settings st \<and>
         recentList st' =
           filter wellFormed
             (map (storedEntry (m_settings st))
                [0..<nat (min (beginReadArray (m_settings st)) max_items)])"
    by (simp add: resetRecentProjectsModel_def loadedRecentProjects_def)
next
  have nt: "\<not> topmost [] storedExample"
    by (simp add: topmost_def)
  have "loadedRecentProjects (m_settings storedExample) =
          [\<lparr>MenusData.name = ''A'', MenusData.file = ''/a''\<rparr>]"
    by (simp add: loadedRecentProjects_def storedExample_def emptySettings_def beginReadArray_def
        max_items_def storedEntry_def value_PROJECT_NAME_def value_PROJECT_FILE_def wellFormed_def)
  moreover have "recentList storedExample = []"
    by (simp add: storedExample_def exampleState_def)
  ultimately show "\<exists>st0 st'. updateRecentProjectsModel [] [] st0 = Inr st' \<and>
      m_settings st' = m_settings st0 \<and> recentList st' \<noteq> recentList st0"
    using update_not_given [OF nt, of "[]"]
    by (intro exI [of _ storedExample]
          exI [of _ "resetRecentProjectsModel
                       [\<lparr>MenusData.name = ''A'', MenusData.file = ''/a''\<rparr>] storedExample"])
       (simp add: resetRecentProjectsModel_def)
qed

theorem updateRecentProjects_without_entry_witness:
  "\<not> ([] \<noteq> [] \<and> recentList storedExample \<noteq> [] \<and> MenusData.file (hd (recentList storedExample)) = []) \<and>
   (\<exists>st'. updateRecentProjectsModel ''A'' [] storedExample = Inr st' \<and>
      m_settings st' = m_settings storedExample \<and>
      recentList st' = [\<lparr>MenusData.name = ''A'', MenusData.file = ''/a''\<rparr>])"
  using updateRecentProjects_without_entry [of "''A''" "[]" storedExample]
  by (simp add: storedExample_def emptySettings_def beginReadArray_def
        max_items_def storedEntry_def value_PROJECT_NAME_def value_PROJECT_FILE_def wellFormed_def)

section \<open>Removing a recent project\<close>

text \<open>
  What the loop does with the index of the match: when no index below the stored size holds
  the file, the state is unchanged; at the first index \<open>i\<close> that holds the file, the two
  keys of the stored entry \<open>i\<close> are removed, the stored size and the other stored entries
  stay, and \<open>removeAt(i)\<close> is applied to the list of the model with this same store index.
\<close>

lemma removeRecentProjectsModel_at_index:
  "((\<forall>j < nat (beginReadArray (m_settings st)). value_PROJECT_FILE (m_settings st) j \<noteq> projectFile) \<longrightarrow>
      removeRecentProjectsModel projectFile st = Inr st) \<and>
   (int i < beginReadArray (m_settings st) \<and>
    value_PROJECT_FILE (m_settings st) i = projectFile \<and>
    (\<forall>j < i. value_PROJECT_FILE (m_settings st) j \<noteq> projectFile) \<and>
    i < length (recentList st) \<longrightarrow>
      (\<exists>st'. removeRecentProjectsModel projectFile st = Inr st' \<and>
         m_settings st' = (m_settings st)
           \<lparr>KEY_PROJECT_NAME := (KEY_PROJECT_NAME (m_settings st))(i := None),
            KEY_PROJECT_FILE := (KEY_PROJECT_FILE (m_settings st))(i := None)\<rparr> \<and>
         recentList st' = take i (recentList st) @ drop (Suc i) (recentList st) \<and>
         (\<forall>j. j \<noteq> i \<longrightarrow> storedEntry (m_settings st') j = storedEntry (m_settings st) j)))"
proof (intro conjI impI)
  assume "\<forall>j < nat (beginReadArray (m_settings st)). value_PROJECT_FILE (m_settings st) j \<noteq> projectFile"
  then show "removeRecentProjectsModel projectFile st = Inr st"
    unfolding removeRecentProjectsModel_def
    by (intro removeRecentProjectsLoop_no_match [OF refl]) auto
next
  let ?n = "beginReadArray (m_settings st)"
  assume a: "int i < ?n \<and> value_PROJECT_FILE (m_settings st) i = projectFile \<and>
    (\<forall>j < i. value_PROJECT_FILE (m_settings st) j \<noteq> projectFile) \<and> i < length (recentList st)"
  then have "removeRecentProjectsLoop projectFile ?n 0 st =
             removeRecentProjectsLoop projectFile ?n (int i) st"
    by (intro removeRecentProjectsLoop_advance [OF refl]) auto
  also have "\<dots> = Inr (resetRecentProjectsModel (take i (recentList st) @ drop (Suc i) (recentList st))
                 (st\<lparr>m_settings := (m_settings st)
                       \<lparr>KEY_PROJECT_NAME := (KEY_PROJECT_NAME (m_settings st))(i := None),
                        KEY_PROJECT_FILE := (KEY_PROJECT_FILE (m_settings st))(i := None)\<rparr>\<rparr>))"
    using a by (simp add: removeRecentProjectsLoop_match qlist_removeAt_def)
  finally show "\<exists>st'. removeRecentProjectsModel projectFile st = Inr st' \<and>
         m_settings st' = (m_settings st)
           \<lparr>KEY_PROJECT_NAME := (KEY_PROJECT_NAME (m_settings st))(i := None),
            KEY_PROJECT_FILE := (KEY_PROJECT_FILE (m_settings st))(i := None)\<rparr> \<and>
         recentList st' = take i (recentList st) @ drop (Suc i) (recentList st) \<and>
         (\<forall>j. j \<noteq> i \<longrightarrow> storedEntry (m_settings st') j = storedEntry (m_settings st) j)"
    by (simp add: removeRecentProjectsModel_def resetRecentProjectsModel_def storedEntry_def
        value_PROJECT_NAME_def value_PROJECT_FILE_def)
qed

text \<open>
  C5. The claim has \<open>removeRecentProjectsModel\<close> remove the stored entry that holds the
  file together with its entry in the list of the model. The code takes the index of the
  stored entry as the index into the list, and the two differ once an entry has been
  removed, since the stored array keeps a blank entry where the list closes the gap. After
  the calls (A, /a), (B, /b), removing /b and then /a calls \<open>removeAt(1)\<close> on a list of one
  entry. After the calls (A, /a), (B, /b), (C, /c), (D, /d) the list holds the files
  /d, /c, /b, /a; removing /c leaves /d, /b, /a; removing /b then leaves /d, /b: the entry
  of /a has left the list and the entry of /b is still in it.
\<close>

theorem removeRecentProject_index_mismatch:
  "andThen
     (andThen
        (updateRecentProjectsAll [(''A'', ''/a''), (''B'', ''/b'')] exampleState)
        (removeRecentProjectsModel ''/b''))
     (removeRecentProjectsModel ''/a'') = Inl IndexOutOfRange \<and>
   andThen
     (updateRecentProjectsAll
        [(''A'', ''/a''), (''B'', ''/b''), (''C'', ''/c''), (''D'', ''/d'')] exampleState)
     recentFiles = Inr [''/d'', ''/c'', ''/b'', ''/a''] \<and>
   andThen
     (andThen
        (updateRecentProjectsAll
           [(''A'', ''/a''), (''B'', ''/b''), (''C'', ''/c''), (''D'', ''/d'')] exampleState)
        (removeRecentProjectsModel ''/c''))
     recentFiles = Inr [''/d'', ''/b'', ''/a''] \<and>
   andThen
     (andThen
        (andThen
           (updateRecentProjectsAll
              [(''A'', ''/a''), (''B'', ''/b''), (''C'', ''/c''), (''D'', ''/d'')] exampleState)
           (removeRecentProjectsModel ''/c''))
        (removeRecentProjectsModel ''/b''))
     recentFiles = Inr [''/d'', ''/b'']"
  by (simp add: andThen_def updateRecentProjectsModel_def readRecentProjects.simps
      writeRecentProjects.simps exampleState_def emptySettings_def beginReadArray_def
      beginWriteArray_def endArray_def value_PROJECT_NAME_def value_PROJECT_FILE_def
      max_items_def qlist_move_def resetRecentProjectsModel_def Let_def
      removeRecentProjectsModel_def removeRecentProjectsLoop.simps qlist_removeAt_def
      recentFiles_def)

section \<open>Source images\<close>

text \<open>
  C2, amended. For an index within the source list whose position \<open>index - 4\<close> is a valid
  position of the stored custom-source list, that is \<open>0 \<le> index - 4\<close> and \<open>index - 4\<close> below
  the size of the stored list (4 is the number of \<open>defaultSources\<close>), \<open>removeSourceImage\<close>
  returns true, removes the entry at \<open>index\<close> from the source list and the entry at
  \<open>index - 4\<close> from the stored list. With four entries in the source list and no stored
  custom sources, \<open>addSourceImage("img.png", true)\<close> returns true, appends the entry and
  stores ["img.png"], and \<open>removeSourceImage(4)\<close> then returns true, restores the four
  entries and leaves the stored list empty.
\<close>

theorem removeSourceImage_removes:
  "(0 \<le> index \<and> index < int (length (sourceList st)) \<and>
    0 \<le> index - int (length defaultSources) \<and>
    index - int (length defaultSources) < int (length (customSourceImages (m_settings st))) \<longrightarrow>
      (\<exists>st'. removeSourceImage index st = Inr (True, st') \<and>
         sourceList st' = take (nat index) (sourceList st) @ drop (Suc (nat index)) (sourceList st) \<and>
         customSourceImages (m_settings st') =
           take (nat (index - int (length defaultSources))) (customSourceImages (m_settings st))
           @ drop (Suc (nat (index - int (length defaultSources))))
               (customSourceImages (m_settings st)))) \<and>
   (length (sourceList st) = 4 \<and> ''img.png'' \<notin> set (map ImagesData.file (sourceList st)) \<and>
    customSourceImages (m_settings st) = [] \<longrightarrow>
      fst (addSourceImage env ''img.png'' True st) = True \<and>
      map ImagesData.file (sourceList (snd (addSourceImage env ''img.png'' True st))) =
        map ImagesData.file (sourceList st) @ [''img.png''] \<and>
      customSourceImages (m_settings (snd (addSourceImage env ''img.png'' True st))) = [''img.png''] \<and>
      (\<exists>st''. removeSourceImage 4 (snd (addSourceImage env ''img.png'' True st)) = Inr (True, st'') \<and>
         sourceList st'' = sourceList st \<and>
         customSourceImages (m_settings st'') = []))"
proof (intro conjI impI)
  assume a: "0 \<le> index \<and> index < int (length (sourceList st)) \<and>
    0 \<le> index - int (length defaultSources) \<and>
    index - int (length defaultSources) < int (length (customSourceImages (m_settings st)))"
  then show "\<exists>st'. removeSourceImage index st = Inr (True, st') \<and>
         sourceList st' = take (nat index) (sourceList st) @ drop (Suc (nat index)) (sourceList st) \<and>
         customSourceImages (m_settings st') =
           take (nat (index - int (length defaultSources))) (customSourceImages (m_settings st))
           @ drop (Suc (nat (index - int (length defaultSources))))
               (customSourceImages (m_settings st))"
    by (simp add: removeSourceImage_def Let_def qlist_removeAt_valid customSourceImages_update)
next
  assume a: "length (sourceList st) = 4 \<and> ''img.png'' \<notin> set (map ImagesData.file (sourceList st)) \<and>
    customSourceImages (m_settings st) = []"
  let ?r = "addSourceImage env ''img.png'' True st"
  from a show "fst ?r = True"
    by (simp add: addSourceImage_def containsFile_iff Let_def)
  from a show l: "map ImagesData.file (sourceList (snd ?r)) = map ImagesData.file (sourceList st) @ [''img.png'']"
    by (simp add: addSourceImage_def containsFile_iff Let_def)
  from a show c: "customSourceImages (m_settings (snd ?r)) = [''img.png'']"
    by (simp add: addSourceImage_def containsFile_iff Let_def customSourceImages_update)
  from a have l': "\<exists>d. sourceList (snd ?r) = sourceList st @ [d]"
    by (simp add: addSourceImage_def containsFile_iff Let_def)
  then have len: "length (sourceList (snd ?r)) = 5"
    using a by auto
  have "removeSourceImage 4 (snd ?r) =
          Inr (True, (snd ?r)
            \<lparr>m_sourceImagesModel := (m_sourceImagesModel (snd ?r))
               \<lparr>ImagesModel.m_modelList := take 4 (sourceList (snd ?r))\<rparr>,
             events := events (snd ?r)
               @ [BeginResetModel SourceImagesModel, EndResetModel SourceImagesModel],
             m_settings := (m_settings (snd ?r))\<lparr>KEY_CUSTOM_SOURCE_IMAGES := Some []\<rparr>\<rparr>)"
    using len c by (simp add: removeSourceImage_def Let_def qlist_removeAt_def defaultSources_def)
  moreover have "take 4 (sourceList (snd ?r)) = sourceList st"
    using l' a by auto
  ultimately show "\<exists>st''. removeSourceImage 4 (snd ?r) = Inr (True, st'') \<and>
         sourceList st'' = sourceList st \<and> customSourceImages (m_settings st'') = []"
    by (simp add: customSourceImages_update)
qed

theorem removeSourceImage_removes_witness:
  "length (sourceList exampleState) = 4 \<and>
   ''img.png'' \<notin> set (map ImagesData.file (sourceList exampleState)) \<and>
   customSourceImages (m_settings exampleState) = [] \<and>
   fst (addSourceImage exampleEnv ''img.png'' True exampleState) = True \<and>
   (\<exists>st''. removeSourceImage 4 (snd (addSourceImage exampleEnv ''img.png'' True exampleState))
             = Inr (True, st'') \<and>
      sourceList st'' = exampleDefaults \<and> customSourceImages (m_settings st'') = [])"
proof -
  have h: "length (sourceList exampleState) = 4"
    "''img.png'' \<notin> set (map ImagesData.file (sourceList exampleState))"
    "customSourceImages (m_settings exampleState) = []"
    by (simp_all add: exampleState_def exampleDefaults_def defaultSources_def
        customSourceImages_def emptySettings_def)
  have s: "sourceList exampleState = exampleDefaults"
    by (simp add: exampleState_def)
  from removeSourceImage_removes [of 4 exampleState exampleEnv] h s
  show ?thesis by simp
qed

text \<open>
  C2 as stated takes \<open>index \<ge> 4\<close> for a valid position. It is not: after
  \<open>addSourceImage("x.png", false)\<close> the source list has five entries and the stored list is
  empty, and \<open>removeSourceImage(4)\<close> calls \<open>removeAt(0)\<close> on the empty stored list.
\<close>

theorem removeSourceImage_counterexample:
  "(4::int) \<ge> int (length defaultSources) \<and>
   (4::int) < int (length (sourceList (snd (addSourceImage exampleEnv ''x.png'' False exampleState)))) \<and>
   removeSourceImage 4 (snd (addSourceImage exampleEnv ''x.png'' False exampleState)) =
     Inl IndexOutOfRange"
  by (simp add: addSourceImage_def removeSourceImage_def Let_def qlist_removeAt_def
      exampleState_def exampleDefaults_def exampleEnv_def defaultSources_def
      customSourceImages_def emptySettings_def)

text \<open>
  C3. \<open>addSourceImage\<close> returns false for an empty path and for a path that is the file of
  an entry of the source list, and \<open>removeSourceImage\<close> returns false for a negative index
  and for an index that is at least the size of the source list; in each case the store and
  the lists of the three models are as before.
\<close>

theorem validation_failures_change_nothing:
  "(sourceImage = [] \<or> sourceImage \<in> set (map ImagesData.file (sourceList st)) \<longrightarrow>
      fst (addSourceImage env sourceImage canRemove' st) = False \<and>
      m_settings (snd (addSourceImage env sourceImage canRemove' st)) = m_settings st \<and>
      m_sourceImagesModel (snd (addSourceImage env sourceImage canRemove' st)) = m_sourceImagesModel st \<and>
      m_backgroundImagesModel (snd (addSourceImage env sourceImage canRemove' st)) = m_backgroundImagesModel st \<and>
      m_recentProjectsModel (snd (addSourceImage env sourceImage canRemove' st)) = m_recentProjectsModel st) \<and>
   (index < 0 \<or> index \<ge> int (length (sourceList st)) \<longrightarrow>
      removeSourceImage index st = Inr (False, st))"
  by (auto simp: addSourceImage_def removeSourceImage_def containsFile_iff)

theorem validation_failures_change_nothing_witness:
  "fst (addSourceImage exampleEnv [] True exampleState) = False \<and>
   ImagesData.file (sourceList exampleState ! 1) \<in> set (map ImagesData.file (sourceList exampleState)) \<and>
   fst (addSourceImage exampleEnv (ImagesData.file (sourceList exampleState ! 1)) True exampleState) = False \<and>
   sourceList (snd (addSourceImage exampleEnv (ImagesData.file (sourceList exampleState ! 1)) True exampleState))
     = sourceList exampleState \<and>
   4 \<ge> int (length (sourceList exampleState)) \<and>
   removeSourceImage 4 exampleState = Inr (False, exampleState) \<and>
   removeSourceImage (- 1) exampleState = Inr (False, exampleState)"
proof -
  have m: "ImagesData.file (sourceList exampleState ! 1) \<in> set (map ImagesData.file (sourceList exampleState))"
    by (simp add: exampleState_def exampleDefaults_def defaultSources_def)
  have l: "4 \<ge> int (length (sourceList exampleState))"
    by (simp add: exampleState_def exampleDefaults_def defaultSources_def)
  from validation_failures_change_nothing [of "[]" exampleState exampleEnv True 4]
    validation_failures_change_nothing
      [of "ImagesData.file (sourceList exampleState ! 1)" exampleState exampleEnv True "- 1"] m l
  show ?thesis by simp
qed



text \<open>
  C6. \<open>currentImageFile\<close> returns the file of the selected entry for an index within the
  list and the empty string for an index at or above the size (the three lemmas on
  \<open>currentImageFile\<close> above). For a negative index it does not return the empty string: the
  test \<open>size > index\<close> holds and \<open>at(index)\<close> is called out of range, here after
  \<open>setImageIndex(-1)\<close> on a list of four entries.
\<close>

theorem currentImageFile_negative_index:
  "currentImageFile (fst (setImageIndex (- 1) (m_sourceImagesModel exampleState))) =
     Inl IndexOutOfRange"
  by (simp add: currentImageFile_def setImageIndex_def qlist_at_def exampleState_def)

section \<open>Scalar preferences\<close>

text \<open>
  C8. \<open>setUseLegacyShaders(b)\<close> returns the state as it was when \<open>b\<close> is what
  \<open>useLegacyShaders()\<close> reads. Otherwise it stores \<open>b\<close>, after which \<open>useLegacyShaders()\<close>
  reads \<open>b\<close>, and appends exactly three events in this order: the change signal, the call
  that updates the baked shader versions, and the call that bakes the shaders.
\<close>

theorem setUseLegacyShaders_effect:
  "(useLegacyShaders st = legacyShaders \<longrightarrow> setUseLegacyShaders legacyShaders st = st) \<and>
   (useLegacyShaders st \<noteq> legacyShaders \<longrightarrow>
      setUseLegacyShaders legacyShaders st =
        st\<lparr>m_settings := (m_settings st)\<lparr>KEY_LEGACY_SHADERS := Some legacyShaders\<rparr>,
           events := events st @ [UseLegacyShadersChanged, UpdateBakedShaderVersions, DoBakeShaders]\<rparr> \<and>
      useLegacyShaders (setUseLegacyShaders legacyShaders st) = legacyShaders)"
  by (simp add: setUseLegacyShaders_def useLegacyShaders_def)

theorem setUseLegacyShaders_effect_witness:
  "useLegacyShaders exampleState = False \<and>
   setUseLegacyShaders False exampleState = exampleState \<and>
   useLegacyShaders exampleState \<noteq> True \<and>
   events (setUseLegacyShaders True exampleState) =
     [UseLegacyShadersChanged, UpdateBakedShaderVersions, DoBakeShaders] \<and>
   KEY_LEGACY_SHADERS (m_settings (setUseLegacyShaders True exampleState)) = Some True"
proof -
  have u: "useLegacyShaders exampleState = False"
    by (simp add: useLegacyShaders_def exampleState_def emptySettings_def)
  have e: "events exampleState = []"
    by (simp add: exampleState_def)
  from setUseLegacyShaders_effect [of exampleState False]
    setUseLegacyShaders_effect [of exampleState True] u e
  show ?thesis by simp
qed

text \<open>
  C9. After \<open>resetCodeFont\<close>, \<open>codeFontFile\<close> reads the bundled font path and
  \<open>codeFontSize\<close> reads 14. \<open>resetCodeFont\<close> is the two setters called with the defaults; it
  emits a change signal only for a value that differed from its default; and each setter
  returns the state as it was when the new value is the one that the getter reads.
\<close>

theorem resetCodeFont_defaults:
  "codeFontFile (resetCodeFont st) = ''fonts/SourceCodePro-Regular.ttf'' \<and>
   codeFontSize (resetCodeFont st) = 14 \<and>
   resetCodeFont st = setCodeFontSize DEFAULT_CODE_FONT_SIZE (setCodeFontFile DEFAULT_CODE_FONT_FILE st) \<and>
   events (resetCodeFont st) =
     events st
     @ (if codeFontFile st = DEFAULT_CODE_FONT_FILE then [] else [CodeFontFileChanged])
     @ (if codeFontSize st = DEFAULT_CODE_FONT_SIZE then [] else [CodeFontSizeChanged]) \<and>
   (codeFontFile st = font \<longrightarrow> setCodeFontFile font st = st) \<and>
   (codeFontSize st = size' \<longrightarrow> setCodeFontSize size' st = st)"
  by (simp add: resetCodeFont_def setCodeFontSize_def setCodeFontFile_def codeFontFile_def
      codeFontSize_def DEFAULT_CODE_FONT_FILE_def DEFAULT_CODE_FONT_SIZE_def)

theorem resetCodeFont_defaults_witness:
  "codeFontFile exampleState = DEFAULT_CODE_FONT_FILE \<and>
   setCodeFontFile DEFAULT_CODE_FONT_FILE exampleState = exampleState \<and>
   codeFontSize exampleState = 14 \<and>
   setCodeFontSize 14 exampleState = exampleState \<and>
   codeFontSize (resetCodeFont (setCodeFontSize 20 exampleState)) = 14"
proof -
  have f: "codeFontFile exampleState = DEFAULT_CODE_FONT_FILE"
    by (simp add: codeFontFile_def exampleState_def emptySettings_def)
  have s: "codeFontSize exampleState = 14"
    by (simp add: codeFontSize_def exampleState_def emptySettings_def DEFAULT_CODE_FONT_SIZE_def)
  have r: "codeFontSize (resetCodeFont (setCodeFontSize 20 exampleState)) = 14"
    using resetCodeFont_defaults [of "setCodeFontSize 20 exampleState" "[]" 0] by blast
  from resetCodeFont_defaults [of exampleState DEFAULT_CODE_FONT_FILE 14] f s r
  show ?thesis by blast
qed

end
